theory Spec2Isabelle
  imports Complex_Main "HOL-Library.Word"
begin

section \<open>JavaScript values used by the wrapper\<close>

text \<open>
  A JavaScript \<open>number\<close> is a double: a finite value, one of the two infinities, or NaN.
  Finite values are kept as rationals. The comparisons \<open><\<close> and \<open>>\<close> are false as soon as
  one side is NaN, which is what the validation and the detection test of the code rely on.
\<close>

datatype number = NaN | NegInf | Fin rat | PosInf

fun num_lt :: "number \<Rightarrow> number \<Rightarrow> bool" where
  "num_lt (Fin a) (Fin b) = (a < b)"
| "num_lt NegInf (Fin b) = True"
| "num_lt NegInf PosInf = True"
| "num_lt (Fin a) PosInf = True"
| "num_lt a b = False"

definition num_gt :: "number \<Rightarrow> number \<Rightarrow> bool" where
  "num_gt a b = num_lt b a"

text \<open>Truthiness of a number: \<open>0\<close> and NaN are falsy.\<close>

definition falsy :: "number \<Rightarrow> bool" where
  "falsy n = (n = NaN \<or> n = Fin 0)"

text \<open>\<open>v || d\<close> for an optional number and for an optional string (\<open>undefined\<close> is \<open>None\<close>).\<close>

definition number_or :: "number option \<Rightarrow> number \<Rightarrow> number" where
  "number_or v d = (case v of None \<Rightarrow> d | Some n \<Rightarrow> if falsy n then d else n)"

definition string_or :: "string option \<Rightarrow> string \<Rightarrow> string" where
  "string_or v d = (case v of None \<Rightarrow> d | Some s \<Rightarrow> if s = [] then d else s)"

text \<open>
  A thrown value: an \<open>Error\<close> object with its message, or any other value, kept as the
  string \<open>String(value)\<close> gives.
\<close>

datatype thrown = Error string | NonError string

type_synonym Buffer = "8 word list"

section \<open>DialogDetector (src/dialog/DialogDetector.ts)\<close>

record DialogDetectionOptions =
  opt_screenshotInterval :: "number option"
  opt_diffThreshold :: "number option"
  opt_screenshotDir :: "string option"

record DialogDetectionResult =
  detected :: bool
  screenshotPath :: "string option"
  timestamp :: string

text \<open>
  The fields of the class. The callback is an opaque value of type \<open>'cb\<close>; the timer is the
  handle \<open>setInterval\<close> returned.
\<close>

record 'cb DialogDetector =
  screenshotInterval :: number
  diffThreshold :: number
  screenshotDir :: string
  monitoring :: bool
  monitorTimer :: "nat option"
  previousScreenshot :: "Buffer option"
  detectionCallback :: "'cb option"

text \<open>The constructor: \<open>options?.x || default\<close> for each of the three options.\<close>

definition DialogDetector_new :: "DialogDetectionOptions option \<Rightarrow> 'cb DialogDetector" where
  "DialogDetector_new options =
     \<lparr> screenshotInterval = number_or (Option.bind options opt_screenshotInterval) (Fin 5000),
       diffThreshold = number_or (Option.bind options opt_diffThreshold) (Fin (1 / 10)),
       screenshotDir = string_or (Option.bind options opt_screenshotDir) ''./screenshots'',
       monitoring = False,
       monitorTimer = None,
       previousScreenshot = None,
       detectionCallback = None \<rparr>"

text \<open>
  \<open>startMonitoring\<close> is an async function with one suspension point,
  \<open>await this.takeScreenshot()\<close>. The part before it runs inside the call; the part after
  it runs later, as a continuation. \<open>startMonitoring_begin\<close> is the first part: it returns
  the new fields and whether the call is now suspended at the \<open>await\<close> (\<open>True\<close>) or has
  returned at the guard (\<open>False\<close>). The parameter is optional because
  \<open>setScreenshotInterval\<close> passes the field \<open>detectionCallback\<close>, which is \<open>null\<close> at run
  time when it has been cleared.
\<close>

definition startMonitoring_begin ::
  "'cb option \<Rightarrow> 'cb DialogDetector \<Rightarrow> 'cb DialogDetector \<times> bool" where
  "startMonitoring_begin callback d =
     (if monitoring d then (d, False)
      else (d\<lparr>monitoring := True, detectionCallback := callback\<rparr>, True))"

text \<open>
  The continuation: the capture is stored as the baseline and the interval timer is
  created; \<open>timer\<close> is the handle \<open>setInterval\<close> returns. A capture that failed
  (\<open>Inl\<close>) rejects the call before either assignment.
\<close>

definition startMonitoring_resume ::
  "thrown + Buffer \<Rightarrow> nat \<Rightarrow> 'cb DialogDetector \<Rightarrow> 'cb DialogDetector \<times> nat option" where
  "startMonitoring_resume captured timer d =
     (case captured of
        Inl e \<Rightarrow> (d, None)
      | Inr shot \<Rightarrow> (d\<lparr>previousScreenshot := Some shot, monitorTimer := Some timer\<rparr>, Some timer))"

text \<open>
  \<open>stopMonitoring\<close> has no \<open>await\<close>: the whole body runs inside the call. The second
  component is the timer handed to \<open>clearInterval\<close>, if any.
\<close>

definition stopMonitoring :: "'cb DialogDetector \<Rightarrow> 'cb DialogDetector \<times> nat option" where
  "stopMonitoring d =
     (if \<not> monitoring d then (d, None)
      else (d\<lparr>monitoring := False, monitorTimer := None,
               previousScreenshot := None, detectionCallback := None\<rparr>,
            monitorTimer d))"

text \<open>
  \<open>detectDialog\<close>: the local \<open>sizeDiff\<close> is
  \<open>Math.abs(prevSize - currentSize) / Math.max(prevSize, currentSize)\<close>. Two empty buffers
  give \<open>0 / 0\<close>, which is NaN. The quotient of two integers is rounded to a double; the
  rounding is the parameter \<open>rnd\<close>.
\<close>

definition sizeDiff :: "(rat \<Rightarrow> rat) \<Rightarrow> Buffer \<Rightarrow> Buffer \<Rightarrow> number" where
  "sizeDiff rnd prev current =
     (let prevSize = length prev; currentSize = length current in
      if max prevSize currentSize = 0 then NaN
      else Fin (rnd (of_int \<bar>int prevSize - int currentSize\<bar> / of_nat (max prevSize currentSize))))"

definition detectDialog :: "(rat \<Rightarrow> rat) \<Rightarrow> 'cb DialogDetector \<Rightarrow> Buffer \<Rightarrow> Buffer \<Rightarrow> bool" where
  "detectDialog rnd d prev current = num_gt (sizeDiff rnd prev current) (diffThreshold d)"

text \<open>
  \<open>saveScreenshot\<close>: \<open>isoTime\<close> is \<open>new Date().toISOString()\<close>; colons and dots become dashes.
\<close>

definition saveScreenshot :: "'cb DialogDetector \<Rightarrow> string \<Rightarrow> string" where
  "saveScreenshot d isoTime =
     screenshotDir d @ ''/'' @ ''dialog-detected-''
       @ map (\<lambda>c. if c = CHR '':'' \<or> c = CHR ''.'' then CHR ''-'' else c) isoTime @ ''.png''"

text \<open>
  \<open>checkForDialog\<close> is an async function with two suspension points:
  \<open>await this.takeScreenshot()\<close> at its start and, when a dialog is detected,
  \<open>await this.saveScreenshot(currentScreenshot)\<close>. Before the capture arrives it reads and
  writes no field.

  \<open>checkForDialog_captured\<close> is the part that runs when the capture arrives. A failed
  capture is caught and logged: the fields stay as they are. Without a detection the capture
  becomes the baseline and the cycle ends. With a detection the cycle is suspended again,
  holding the capture and the path \<open>saveScreenshot\<close> computed inside the call: the second
  component.
\<close>

definition checkForDialog_captured ::
  "(rat \<Rightarrow> rat) \<Rightarrow> thrown + Buffer \<Rightarrow> string \<Rightarrow> 'cb DialogDetector
     \<Rightarrow> 'cb DialogDetector \<times> (Buffer \<times> string) option" where
  "checkForDialog_captured rnd captured isoTime d =
     (case captured of
        Inl e \<Rightarrow> (d, None)
      | Inr currentScreenshot \<Rightarrow>
          (case previousScreenshot d of
             None \<Rightarrow> (d\<lparr>previousScreenshot := Some currentScreenshot\<rparr>, None)
           | Some prev \<Rightarrow>
               if detectDialog rnd d prev currentScreenshot
               then (d, Some (currentScreenshot, saveScreenshot d isoTime))
               else (d\<lparr>previousScreenshot := Some currentScreenshot\<rparr>, None)))"

text \<open>
  The part that runs after \<open>saveScreenshot\<close>. \<open>checkForDialog_notify\<close> is the call made to the
  callback, if one is set at that moment; \<open>now\<close> is \<open>new Date()\<close>. \<open>checkForDialog_finish\<close> is
  the last statement of the \<open>try\<close> block, which makes the capture the baseline. It runs when
  no callback is set or when the callback has returned; a callback that throws lands in the
  \<open>catch\<close> and the baseline stays.
\<close>

definition checkForDialog_notify ::
  "string \<Rightarrow> string \<Rightarrow> 'cb DialogDetector \<Rightarrow> ('cb \<times> DialogDetectionResult) option" where
  "checkForDialog_notify path now d =
     (case detectionCallback d of
        None \<Rightarrow> None
      | Some cb \<Rightarrow> Some (cb, \<lparr> detected = True, screenshotPath = Some path, timestamp = now \<rparr>))"

definition checkForDialog_finish :: "Buffer \<Rightarrow> 'cb DialogDetector \<Rightarrow> 'cb DialogDetector" where
  "checkForDialog_finish currentScreenshot d = d\<lparr>previousScreenshot := Some currentScreenshot\<rparr>"

definition isMonitoring :: "'cb DialogDetector \<Rightarrow> bool" where
  "isMonitoring d = monitoring d"

text \<open>
  \<open>setScreenshotInterval\<close> is synchronous. It calls \<open>stopMonitoring()\<close> and then
  \<open>startMonitoring(this.detectionCallback)\<close> without awaiting either, so it returns with
  \<open>startMonitoring\<close> suspended. The argument of \<open>startMonitoring\<close> is read after
  \<open>stopMonitoring\<close> has run. The result is the new fields, the timer cleared, and whether a
  \<open>startMonitoring\<close> is left suspended.
\<close>

definition setScreenshotInterval ::
  "number \<Rightarrow> 'cb DialogDetector \<Rightarrow> 'cb DialogDetector \<times> nat option \<times> bool" where
  "setScreenshotInterval interval d =
     (let d1 = d\<lparr>screenshotInterval := interval\<rparr> in
      if monitoring d1 \<and> detectionCallback d1 \<noteq> None then
        (let (d2, cleared) = stopMonitoring d1;
             (d3, awaits) = startMonitoring_begin (detectionCallback d2) d2
         in (d3, cleared, awaits))
      else (d1, None, False))"

definition setDiffThreshold :: "number \<Rightarrow> 'cb DialogDetector \<Rightarrow> thrown + 'cb DialogDetector" where
  "setDiffThreshold threshold d =
     (if num_lt threshold (Fin 0) \<or> num_gt threshold (Fin 1)
      then Inl (Error ''Threshold must be between 0 and 1'')
      else Inr (d\<lparr>diffThreshold := threshold\<rparr>))"


subsection \<open>The monitor and the event loop around it\<close>

text \<open>
  What the event loop holds besides the fields: how many \<open>startMonitoring\<close> calls are
  suspended at their \<open>await\<close>, which interval timers are live, the next timer handle, how
  many check cycles are suspended at their capture, the check cycles suspended at
  \<open>saveScreenshot\<close> (each with its capture and path), and the calls made to callbacks so far.
\<close>

record 'cb runtime =
  detector :: "'cb DialogDetector"
  awaiting :: nat
  timers :: "nat list"
  nextTimer :: nat
  capturing :: nat
  saving :: "(Buffer \<times> string) list"
  notified :: "('cb \<times> DialogDetectionResult) list"

definition boot :: "'cb DialogDetector \<Rightarrow> 'cb runtime" where
  "boot d = \<lparr> detector = d, awaiting = 0, timers = [], nextTimer = 0,
              capturing = 0, saving = [], notified = [] \<rparr>"

definition clearInterval :: "nat option \<Rightarrow> nat list \<Rightarrow> nat list" where
  "clearInterval h ts = (case h of None \<Rightarrow> ts | Some t \<Rightarrow> removeAll t ts)"

text \<open>
  A call of a public method that changes the monitor, up to its first \<open>await\<close>. These are
  the calls a caller makes, and the calls a callback can make when it is invoked.
\<close>

datatype 'cb request =
    StartRequest 'cb
  | StopRequest
  | IntervalRequest number
  | ThresholdRequest number

fun perform :: "'cb request \<Rightarrow> 'cb runtime \<Rightarrow> 'cb runtime" where
  "perform (StartRequest cb) r =
     (let (d, awaits) = startMonitoring_begin (Some cb) (detector r)
      in r\<lparr>detector := d, awaiting := awaiting r + (if awaits then 1 else 0)\<rparr>)"
| "perform StopRequest r =
     (let (d, cleared) = stopMonitoring (detector r)
      in r\<lparr>detector := d, timers := clearInterval cleared (timers r)\<rparr>)"
| "perform (IntervalRequest i) r =
     (let (d, cleared, awaits) = setScreenshotInterval i (detector r)
      in r\<lparr>detector := d, timers := clearInterval cleared (timers r),
           awaiting := awaiting r + (if awaits then 1 else 0)\<rparr>)"
| "perform (ThresholdRequest t) r =
     (case setDiffThreshold t (detector r) of Inl e \<Rightarrow> r | Inr d \<Rightarrow> r\<lparr>detector := d\<rparr>)"

text \<open>
  The events. A call of a public method. The continuation of a suspended
  \<open>startMonitoring\<close>, with the capture it was waiting for. A live timer firing, which starts
  a check cycle and leaves it suspended at its capture. The continuation of a cycle with its
  capture (\<open>isoTime\<close> is the time \<open>saveScreenshot\<close> reads). The continuation of a cycle after
  \<open>saveScreenshot\<close>: the callback, if set, is called, and what it does is given by the event:
  the calls it makes on the monitor, and what it throws in the end, if anything. Continuations
  of the same kind run in the order in which they were suspended.
\<close>

datatype 'cb event =
    CallStart 'cb
  | ResumeStart "thrown + Buffer"
  | CallStop
  | CallSetInterval number
  | CallSetThreshold number
  | TimerFires
  | ResumeCapture "thrown + Buffer" string
  | ResumeSave string "'cb request list" "thrown option"

fun exec :: "(rat \<Rightarrow> rat) \<Rightarrow> 'cb event \<Rightarrow> 'cb runtime \<Rightarrow> 'cb runtime" where
  "exec rnd (CallStart cb) r = perform (StartRequest cb) r"
| "exec rnd (ResumeStart captured) r =
     (if awaiting r = 0 then r
      else (let (d, created) = startMonitoring_resume captured (nextTimer r) (detector r)
            in r\<lparr>detector := d, awaiting := awaiting r - 1,
                 timers := (case created of None \<Rightarrow> timers r | Some t \<Rightarrow> timers r @ [t]),
                 nextTimer := Suc (nextTimer r)\<rparr>))"
| "exec rnd CallStop r = perform StopRequest r"
| "exec rnd (CallSetInterval i) r = perform (IntervalRequest i) r"
| "exec rnd (CallSetThreshold t) r = perform (ThresholdRequest t) r"
| "exec rnd TimerFires r =
     (if timers r = [] then r else r\<lparr>capturing := Suc (capturing r)\<rparr>)"
| "exec rnd (ResumeCapture captured isoTime) r =
     (if capturing r = 0 then r
      else (let (d, suspended) = checkForDialog_captured rnd captured isoTime (detector r)
            in r\<lparr>detector := d, capturing := capturing r - 1,
                 saving := saving r @ (case suspended of None \<Rightarrow> [] | Some c \<Rightarrow> [c])\<rparr>))"
| "exec rnd (ResumeSave now requests thrown) r =
     (case saving r of
        [] \<Rightarrow> r
      | (currentScreenshot, path) # rest \<Rightarrow>
          (case checkForDialog_notify path now (detector r) of
             None \<Rightarrow> r\<lparr>saving := rest,
                         detector := checkForDialog_finish currentScreenshot (detector r)\<rparr>
           | Some call \<Rightarrow>
               (let called = foldl (\<lambda>r q. perform q r)
                               (r\<lparr>saving := rest, notified := notified r @ [call]\<rparr>) requests
                in case thrown of
                     Some e \<Rightarrow> called
                   | None \<Rightarrow> called\<lparr>detector := checkForDialog_finish currentScreenshot (detector called)\<rparr>)))"

definition run :: "(rat \<Rightarrow> rat) \<Rightarrow> 'cb event list \<Rightarrow> 'cb runtime \<Rightarrow> 'cb runtime" where
  "run rnd es r = foldl (\<lambda>r e. exec rnd e r) r es"

text \<open>
  Calls and check cycles that run to completion: each one is followed at once by the
  continuations it leaves suspended, before anything else happens. The callback of such a
  cycle makes no call on the monitor; it may throw.
\<close>

datatype 'cb call =
    StartMonitoring 'cb "thrown + Buffer"
  | StopMonitoring
  | CheckCycle "thrown + Buffer" string string "thrown option"
  | SetScreenshotInterval number "thrown + Buffer"
  | SetDiffThreshold number

fun events_of :: "'cb call \<Rightarrow> 'cb event list" where
  "events_of (StartMonitoring cb captured) = [CallStart cb, ResumeStart captured]"
| "events_of StopMonitoring = [CallStop]"
| "events_of (CheckCycle captured isoTime now thrown) =
     [TimerFires, ResumeCapture captured isoTime, ResumeSave now [] thrown]"
| "events_of (SetScreenshotInterval i captured) = [CallSetInterval i, ResumeStart captured]"
| "events_of (SetDiffThreshold t) = [CallSetThreshold t]"

definition run_calls :: "(rat \<Rightarrow> rat) \<Rightarrow> 'cb call list \<Rightarrow> 'cb runtime \<Rightarrow> 'cb runtime" where
  "run_calls rnd cs r = run rnd (concat (map events_of cs)) r"

text \<open>The invariant of the data model, on the fields.\<close>

definition only_while_monitoring :: "'cb DialogDetector \<Rightarrow> bool" where
  "only_while_monitoring d =
     ((previousScreenshot d \<noteq> None \<longrightarrow> monitoring d) \<and> (detectionCallback d \<noteq> None \<longrightarrow> monitoring d))"

text \<open>
  Nothing is suspended, and the live timers are exactly the one the monitor holds while it
  monitors; an idle monitor holds no timer, no baseline and no callback.
\<close>

definition quiescent :: "'cb runtime \<Rightarrow> bool" where
  "quiescent r =
     (awaiting r = 0 \<and> capturing r = 0 \<and> saving r = [] \<and>
      (if monitoring (detector r)
       then timers r = (case monitorTimer (detector r) of None \<Rightarrow> [] | Some t \<Rightarrow> [t])
       else timers r = [] \<and> monitorTimer (detector r) = None
            \<and> previousScreenshot (detector r) = None
            \<and> detectionCallback (detector r) = None))"

section \<open>ChromeMCPClient (mcp/tools.ts)\<close>

record Client =
  client_name :: string
  client_version :: string

record ChromeMCPClient =
  serverUrl :: string
  client :: "Client option"
  isConnected :: bool

definition ChromeMCPClient_new :: "string option \<Rightarrow> ChromeMCPClient" where
  "ChromeMCPClient_new url =
     \<lparr> serverUrl = (case url of None \<Rightarrow> ''http://127.0.0.1:12306/mcp'' | Some u \<Rightarrow> u),
       client = None,
       isConnected = False \<rparr>"

text \<open>
  What a connection attempt meets, in the order of the statements of the \<open>try\<close> block:
  \<open>new Client\<close> throws, building the transport throws (\<open>new URL\<close> on a bad address),
  \<open>connect\<close> rejects, or the connection is made.
\<close>

datatype connect_outcome =
    ClientThrows thrown
  | TransportThrows thrown
  | ConnectThrows thrown
  | ConnectOk

definition ensureConnection ::
  "connect_outcome \<Rightarrow> ChromeMCPClient \<Rightarrow> (thrown + unit) \<times> ChromeMCPClient" where
  "ensureConnection attempt c =
     (if isConnected c \<and> client c \<noteq> None then (Inr (), c)
      else (let created = c\<lparr>client := Some \<lparr>client_name = ''chrome-mcp-wrapper'', client_version = ''1.0.0''\<rparr>\<rparr>
            in case attempt of
                 ClientThrows e \<Rightarrow> (Inl e, c\<lparr>isConnected := False\<rparr>)
               | TransportThrows e \<Rightarrow> (Inl e, created\<lparr>isConnected := False\<rparr>)
               | ConnectThrows e \<Rightarrow> (Inl e, created\<lparr>isConnected := False\<rparr>)
               | ConnectOk \<Rightarrow> (Inr (), created\<lparr>isConnected := True\<rparr>)))"

record ContentItem =
  item_type :: string
  item_text :: "string option"

record CallToolResult =
  isError :: bool
  content :: "ContentItem list"

datatype call_outcome = CallThrows thrown | CallReturns CallToolResult

datatype payload = Text string | Content "ContentItem list"

record MCPToolResult =
  success :: bool
  data :: "payload option"
  error :: "string option"

text \<open>\<open>Array.prototype.join\<close>; an \<open>undefined\<close> element is joined as the empty string.\<close>

fun join :: "string \<Rightarrow> string option list \<Rightarrow> string" where
  "join sep [] = []"
| "join sep [x] = (case x of None \<Rightarrow> [] | Some s \<Rightarrow> s)"
| "join sep (x # y # ys) = (case x of None \<Rightarrow> [] | Some s \<Rightarrow> s) @ sep @ join sep (y # ys)"

definition message_of :: "thrown \<Rightarrow> string" where
  "message_of e = (case e of Error m \<Rightarrow> m | NonError s \<Rightarrow> s)"

text \<open>
  The \<open>try\<close> block of \<open>callTool\<close>. \<open>remote\<close> is the server: what \<open>client.callTool\<close> settles
  to for a tool name and its arguments. \<open>stringify\<close> is \<open>JSON.stringify\<close>.
\<close>

definition callTool_try ::
  "(ContentItem list \<Rightarrow> string) \<Rightarrow> connect_outcome \<Rightarrow> (string \<Rightarrow> 'p \<Rightarrow> call_outcome)
     \<Rightarrow> string \<Rightarrow> 'p \<Rightarrow> ChromeMCPClient \<Rightarrow> (thrown + MCPToolResult) \<times> ChromeMCPClient" where
  "callTool_try stringify attempt remote toolName params c =
     (case ensureConnection attempt c of
        (Inl e, c') \<Rightarrow> (Inl e, c')
      | (Inr u, c') \<Rightarrow>
          if client c' = None then (Inl (Error ''MCP client is not initialized''), c')
          else (case remote toolName params of
                  CallThrows e \<Rightarrow> (Inl e, c')
                | CallReturns callResult \<Rightarrow>
                    if isError callResult
                    then (Inr \<lparr> success = False, data = None,
                               error = Some (''Tool execution failed: '' @ stringify (content callResult)) \<rparr>,
                          c')
                    else (let textContent =
                                join [CHR 0x0A]
                                  (map item_text (filter (\<lambda>item. item_type item = ''text'') (content callResult)))
                          in (Inr \<lparr> success = True,
                                    data = Some (if textContent \<noteq> [] then Text textContent
                                                 else Content (content callResult)),
                                    error = None \<rparr>,
                              c'))))"

text \<open>\<open>callTool\<close>: the \<open>catch\<close> turns whatever the \<open>try\<close> block threw into a result.\<close>

definition callTool ::
  "(ContentItem list \<Rightarrow> string) \<Rightarrow> connect_outcome \<Rightarrow> (string \<Rightarrow> 'p \<Rightarrow> call_outcome)
     \<Rightarrow> string \<Rightarrow> 'p \<Rightarrow> ChromeMCPClient \<Rightarrow> (thrown + MCPToolResult) \<times> ChromeMCPClient" where
  "callTool stringify attempt remote toolName params c =
     (case callTool_try stringify attempt remote toolName params c of
        (Inl e, c') \<Rightarrow> (Inr \<lparr> success = False, data = None, error = Some (message_of e) \<rparr>, c')
      | (Inr r, c') \<Rightarrow> (Inr r, c'))"

text \<open>\<open>close\<close>: \<open>closing\<close> is the error \<open>client.close()\<close> rejects with, if it does.\<close>

definition close :: "thrown option \<Rightarrow> ChromeMCPClient \<Rightarrow> (thrown + unit) \<times> ChromeMCPClient" where
  "close closing c =
     (case client c of
        None \<Rightarrow> (Inr (), c)
      | Some cl \<Rightarrow>
          (case closing of
             Some e \<Rightarrow> (Inl e, c)
           | None \<Rightarrow> (Inr (), c\<lparr>client := None, isConnected := False\<rparr>)))"

text \<open>Operations on a client, each run to completion, and the states they reach.\<close>

datatype 'p client_op =
    EnsureConnection connect_outcome
  | CallTool connect_outcome "string \<Rightarrow> 'p \<Rightarrow> call_outcome" string 'p
  | Close "thrown option"

fun apply_op :: "(ContentItem list \<Rightarrow> string) \<Rightarrow> 'p client_op \<Rightarrow> ChromeMCPClient \<Rightarrow> ChromeMCPClient" where
  "apply_op stringify (EnsureConnection attempt) c = snd (ensureConnection attempt c)"
| "apply_op stringify (CallTool attempt remote toolName params) c =
     snd (callTool stringify attempt remote toolName params c)"
| "apply_op stringify (Close closing) c = snd (close closing c)"

definition after_ops :: "(ContentItem list \<Rightarrow> string) \<Rightarrow> 'p client_op list \<Rightarrow> ChromeMCPClient \<Rightarrow> ChromeMCPClient" where
  "after_ops stringify ops c = foldl (\<lambda>c op. apply_op stringify op c) c ops"


section \<open>ChromeSession and SessionManager (src/session)\<close>

record ChromeSession =
  sessionId :: string
  tabId :: "int option"

definition ChromeSession_new :: "string \<Rightarrow> ChromeSession" where
  "ChromeSession_new sid = \<lparr> sessionId = sid, tabId = None \<rparr>"

definition getSessionId :: "ChromeSession \<Rightarrow> string" where
  "getSessionId s = sessionId s"

definition getTabId :: "ChromeSession \<Rightarrow> int option" where
  "getTabId s = tabId s"

definition setTabId :: "int \<Rightarrow> ChromeSession \<Rightarrow> ChromeSession" where
  "setTabId t s = s\<lparr>tabId := Some t\<rparr>"

text \<open>
  A JavaScript \<open>Map\<close> keeps its entries in insertion order: an association list with
  \<open>has\<close>, \<open>get\<close>, \<open>set\<close> (in place for a key that is there, at the end otherwise) and
  \<open>delete\<close>.
\<close>

definition Map_has :: "'k \<Rightarrow> ('k \<times> 'v) list \<Rightarrow> bool" where
  "Map_has k m = (k \<in> set (map fst m))"

definition Map_get :: "'k \<Rightarrow> ('k \<times> 'v) list \<Rightarrow> 'v option" where
  "Map_get k m = map_of m k"

fun Map_set :: "'k \<Rightarrow> 'v \<Rightarrow> ('k \<times> 'v) list \<Rightarrow> ('k \<times> 'v) list" where
  "Map_set k v [] = [(k, v)]"
| "Map_set k v (p # ps) = (if fst p = k then (k, v) # ps else p # Map_set k v ps)"

definition Map_delete :: "'k \<Rightarrow> ('k \<times> 'v) list \<Rightarrow> ('k \<times> 'v) list" where
  "Map_delete k m = filter (\<lambda>p. fst p \<noteq> k) m"

record SessionManager =
  sessions :: "(string \<times> ChromeSession) list"
  sessionCounter :: nat

definition SessionManager_new :: SessionManager where
  "SessionManager_new = \<lparr> sessions = [], sessionCounter = 0 \<rparr>"

text \<open>A natural number in a template string: its decimal digits.\<close>

fun show_nat :: "nat \<Rightarrow> string" where
  "show_nat n =
     (if n < 10 then [''0123456789'' ! n]
      else show_nat (n div 10) @ [''0123456789'' ! (n mod 10)])"

declare show_nat.simps [simp del]

text \<open>
  \<open>createSession\<close>: \<open>name || `session-${this.sessionCounter++}`\<close>, so a missing name and the
  empty name both take the generated one, and the counter moves even when the call then
  throws.
\<close>

definition createSession ::
  "string option \<Rightarrow> SessionManager \<Rightarrow> (thrown + ChromeSession) \<times> SessionManager" where
  "createSession name m =
     (let generated = (''session-'' @ show_nat (sessionCounter m), m\<lparr>sessionCounter := Suc (sessionCounter m)\<rparr>);
          (sid, m1) = (case name of
                         None \<Rightarrow> generated
                       | Some n \<Rightarrow> if n = [] then generated else (n, m))
      in if Map_has sid (sessions m1)
         then (Inl (Error (''Session \"'' @ sid @ ''\" already exists'')), m1)
         else (let session = ChromeSession_new sid
               in (Inr session, m1\<lparr>sessions := Map_set sid session (sessions m1)\<rparr>)))"

definition getSession :: "string \<Rightarrow> SessionManager \<Rightarrow> ChromeSession option" where
  "getSession name m = Map_get name (sessions m)"

definition removeSession :: "string \<Rightarrow> SessionManager \<Rightarrow> SessionManager" where
  "removeSession name m = m\<lparr>sessions := Map_delete name (sessions m)\<rparr>"

definition getAllSessions :: "SessionManager \<Rightarrow> (string \<times> ChromeSession) list" where
  "getAllSessions m = sessions m"

definition getSessionCount :: "SessionManager \<Rightarrow> nat" where
  "getSessionCount m = length (sessions m)"

definition clearAll :: "SessionManager \<Rightarrow> SessionManager" where
  "clearAll m = m\<lparr>sessions := [], sessionCounter := 0\<rparr>"

text \<open>
  The holder of a session writes its tab through the reference it was given; the registry
  holds the same object, so the entry under that name changes.
\<close>

definition update_session :: "string \<Rightarrow> (ChromeSession \<Rightarrow> ChromeSession) \<Rightarrow> SessionManager \<Rightarrow> SessionManager" where
  "update_session name f m =
     m\<lparr>sessions := map (\<lambda>p. if fst p = name then (fst p, f (snd p)) else p) (sessions m)\<rparr>"

subsection \<open>Promises and tasks\<close>

text \<open>
  A promise is the tick at which it settles and what it settles to (\<open>Inl\<close>: rejected,
  \<open>Inr\<close>: resolved). A tick is a turn of the event loop: what settles at a tick has settled
  when a later tick begins. A task is given a session and returns a promise. It reads the
  session and does not touch the registry.
\<close>

type_synonym 'a promise = "nat \<times> (thrown + 'a)"

type_synonym 'a task = "ChromeSession \<Rightarrow> 'a promise"

definition rejections :: "'a promise list \<Rightarrow> (nat \<times> thrown) list" where
  "rejections ps = concat (map (\<lambda>p. case snd p of Inl e \<Rightarrow> [(fst p, e)] | Inr v \<Rightarrow> []) ps)"

definition resolutions :: "'a promise list \<Rightarrow> 'a list" where
  "resolutions ps = concat (map (\<lambda>p. case snd p of Inl e \<Rightarrow> [] | Inr v \<Rightarrow> [v]) ps)"

definition earliest :: "nat \<times> thrown \<Rightarrow> (nat \<times> thrown) list \<Rightarrow> nat \<times> thrown" where
  "earliest r rs = foldl (\<lambda>best x. if fst x < fst best then x else best) r rs"

text \<open>
  \<open>Promise.all\<close>: rejected with the first rejection, as soon as it happens; otherwise
  resolved with the values in the order of the input, once the last one has settled.
\<close>

definition Promise_all :: "'a promise list \<Rightarrow> ('a list) promise" where
  "Promise_all ps =
     (case rejections ps of
        [] \<Rightarrow> (foldl max 0 (map fst ps), Inr (resolutions ps))
      | r # rs \<Rightarrow> (fst (earliest r rs), Inl (snd (earliest r rs))))"

subsection \<open>runParallel\<close>

text \<open>
  The callback \<open>tasks.map\<close> applies at \<open>index\<close>; \<open>ephemeral_name\<close> is the template
  string \<open>`parallel-${index}`\<close>. \<open>createSession\<close> is outside the \<open>try\<close>: when
  it throws, the task is not called and nothing is removed. Otherwise the callback settles
  as the task does, and its \<open>finally\<close> removes the session at that tick. The result is the
  promise of the callback, the name its \<open>finally\<close> removes (if any), and the registry.
\<close>

definition ephemeral_name :: "nat \<Rightarrow> string" where
  "ephemeral_name index = ''parallel-'' @ show_nat index"

definition with_ephemeral ::
  "'a task \<Rightarrow> nat \<Rightarrow> SessionManager \<Rightarrow> ('a promise \<times> string option) \<times> SessionManager" where
  "with_ephemeral task index m =
     (case createSession (Some (ephemeral_name index)) m of
        (Inl e, m') \<Rightarrow> (((0, Inl e), None), m')
      | (Inr session, m') \<Rightarrow> ((task session, Some (getSessionId session)), m'))"

text \<open>\<open>tasks.map\<close> calls the callback for each task in turn, inside the call of \<open>runParallel\<close>.\<close>

fun start_all ::
  "'a task list \<Rightarrow> nat \<Rightarrow> SessionManager \<Rightarrow> ('a promise \<times> string option) list \<times> SessionManager" where
  "start_all [] index m = ([], m)"
| "start_all (task # rest) index m =
     (let (w, m1) = with_ephemeral task index m;
          (ws, m2) = start_all rest (Suc index) m1
      in (w # ws, m2))"

record 'a parallel_run =
  callbacks :: "('a promise \<times> string option) list"
  started :: SessionManager
  returned :: "('a list) promise"

definition runParallel :: "'a task list \<Rightarrow> SessionManager \<Rightarrow> 'a parallel_run" where
  "runParallel tasks m =
     (let (ws, m') = start_all tasks 0 m
      in \<lparr> callbacks = ws, started = m', returned = Promise_all (map fst ws) \<rparr>)"

text \<open>The names whose \<open>finally\<close> has run by the end of tick \<open>t\<close>, and the registry then.\<close>

definition removed_by :: "nat \<Rightarrow> ('a promise \<times> string option) list \<Rightarrow> string list" where
  "removed_by t ws =
     concat (map (\<lambda>w. case snd w of None \<Rightarrow> [] | Some n \<Rightarrow> if fst (fst w) \<le> t then [n] else []) ws)"

definition registry_at :: "nat \<Rightarrow> 'a parallel_run \<Rightarrow> SessionManager" where
  "registry_at t r = foldl (\<lambda>m n. removeSession n m) (started r) (removed_by t (callbacks r))"

text \<open>
  The registry the caller finds when the promise of \<open>runParallel\<close> settles (the caller
  resumes at the end of that tick), and the registry once every task has settled.
\<close>

definition registry_on_return :: "'a parallel_run \<Rightarrow> SessionManager" where
  "registry_on_return r = registry_at (fst (returned r)) r"

definition registry_at_rest :: "'a parallel_run \<Rightarrow> SessionManager" where
  "registry_at_rest r = registry_at (foldl max 0 (map (\<lambda>w. fst (fst w)) (callbacks r))) r"

text \<open>
  The ephemeral sessions the callbacks created, and those of them still registered at the
  end of tick \<open>t\<close>.
\<close>

definition ephemeral_sessions :: "('a promise \<times> string option) list \<Rightarrow> (string \<times> ChromeSession) list" where
  "ephemeral_sessions ws =
     concat (map (\<lambda>w. case snd w of None \<Rightarrow> [] | Some n \<Rightarrow> [(n, ChromeSession_new n)]) ws)"

definition in_flight :: "nat \<Rightarrow> ('a promise \<times> string option) list \<Rightarrow> (string \<times> ChromeSession) list" where
  "in_flight t ws =
     concat (map (\<lambda>w. case snd w of None \<Rightarrow> []
                      | Some n \<Rightarrow> if fst (fst w) \<le> t then [] else [(n, ChromeSession_new n)]) ws)"

subsection \<open>runParallelWithSessions\<close>

definition with_named ::
  "'a task \<Rightarrow> string \<Rightarrow> SessionManager \<Rightarrow> 'a promise \<times> SessionManager" where
  "with_named task sessionName m =
     (case getSession sessionName m of
        Some session \<Rightarrow> (task session, m)
      | None \<Rightarrow>
          (case createSession (Some sessionName) m of
             (Inl e, m') \<Rightarrow> ((0, Inl e), m')
           | (Inr session, m') \<Rightarrow> (task session, m')))"

fun start_named ::
  "(string \<times> 'a task) list \<Rightarrow> SessionManager \<Rightarrow> 'a promise list \<times> SessionManager" where
  "start_named [] m = ([], m)"
| "start_named ((sessionName, task) # rest) m =
     (let (p, m1) = with_named task sessionName m;
          (ps, m2) = start_named rest m1
      in (p # ps, m2))"

text \<open>
  \<open>runParallelWithSessions\<close> is async: its \<open>throw\<close> rejects the promise it returns. No
  session is removed afterwards, so the registry after the call is the one \<open>tasks.map\<close> left.
\<close>

definition runParallelWithSessions ::
  "string list \<Rightarrow> 'a task list \<Rightarrow> SessionManager \<Rightarrow> ('a list) promise \<times> SessionManager" where
  "runParallelWithSessions sessionNames tasks m =
     (if length sessionNames \<noteq> length tasks
      then ((0, Inl (Error (''Number of sessions ('' @ show_nat (length sessionNames)
                              @ '') must match number of tasks ('' @ show_nat (length tasks) @ '')''))),
            m)
      else (let (ps, m') = start_named (zip sessionNames tasks) m
            in (Promise_all ps, m')))"

text \<open>The task of the scenario: it returns the tab of its session.\<close>

definition readTabId :: "(int option) task" where
  "readTabId session = (0, Inr (getTabId session))"

text \<open>A task that settles at tick \<open>d\<close> with the given outcome, whatever its session.\<close>

definition delayed :: "nat \<Rightarrow> thrown + 'a \<Rightarrow> 'a task" where
  "delayed d outcome session = (d, outcome)"

text \<open>
  The registry of the scenario: sessions \<open>A\<close> and \<open>B\<close> are created, then their holders set
  the tabs 111 and 222.
\<close>

definition registry_AB :: SessionManager where
  "registry_AB =
     update_session ''B'' (setTabId 222)
       (update_session ''A'' (setTabId 111)
          (snd (createSession (Some ''B'') (snd (createSession (Some ''A'') SessionManager_new)))))"

section \<open>Properties of the dialog monitor\<close>

lemma num_lt_irrefl: "\<not> num_lt x x"
  by (cases x) simp_all

lemma setScreenshotInterval_monitoring:
  "monitoring d \<Longrightarrow> detectionCallback d = Some cb \<Longrightarrow>
     setScreenshotInterval i d
       = (d\<lparr>screenshotInterval := i, monitoring := True, monitorTimer := None,
             previousScreenshot := None, detectionCallback := None\<rparr>, monitorTimer d, True)"
  by (simp add: setScreenshotInterval_def stopMonitoring_def startMonitoring_begin_def Let_def)

text \<open>
  Claim C1 says that \<open>setScreenshotInterval\<close> on a monitor that is monitoring with callback
  \<open>cb\<close> leaves it monitoring with the same callback. The code restarts the monitor, but it
  reads \<open>this.detectionCallback\<close> for the restart after \<open>stopMonitoring\<close> has set it to
  \<open>null\<close>: a monitor started with callback 7 is still monitoring after
  \<open>setScreenshotInterval(1000)\<close> and its restart have run, and holds no callback.
\<close>

theorem setScreenshotInterval_loses_callback:
  "detectionCallback (detector (run_calls (\<lambda>q. q) [StartMonitoring (7::nat) (Inr [])]
       (boot (DialogDetector_new None)))) = Some 7
   \<and> monitoring (detector (run_calls (\<lambda>q. q) [StartMonitoring (7::nat) (Inr [])]
       (boot (DialogDetector_new None))))
   \<and> detectionCallback (detector (run_calls (\<lambda>q. q)
       [StartMonitoring (7::nat) (Inr []), SetScreenshotInterval (Fin 1000) (Inr [])]
       (boot (DialogDetector_new None)))) = None
   \<and> monitoring (detector (run_calls (\<lambda>q. q)
       [StartMonitoring (7::nat) (Inr []), SetScreenshotInterval (Fin 1000) (Inr [])]
       (boot (DialogDetector_new None))))"
  by (simp add: run_calls_def run_def boot_def DialogDetector_new_def startMonitoring_begin_def
      startMonitoring_resume_def setScreenshotInterval_def stopMonitoring_def Let_def
      clearInterval_def)

text \<open>
  Claim C6: the score of two captures is the absolute difference of their lengths divided
  by the larger length (NaN for two empty captures, rounded to a double otherwise), and a
  dialog is detected exactly when the score is greater than \<open>diffThreshold\<close>: a score equal
  to the threshold detects nothing, a score above it detects.
\<close>

theorem detectDialog_strict:
  "detectDialog rnd d prev current = num_gt (sizeDiff rnd prev current) (diffThreshold d)
   \<and> sizeDiff rnd prev current =
       (if max (length prev) (length current) = 0 then NaN
        else Fin (rnd (of_int \<bar>int (length prev) - int (length current)\<bar>
                        / of_nat (max (length prev) (length current)))))
   \<and> (sizeDiff rnd prev current = diffThreshold d \<longrightarrow> \<not> detectDialog rnd d prev current)
   \<and> (0 < max (length prev) (length current) \<and> diffThreshold d = Fin t \<longrightarrow>
        detectDialog rnd d prev current
          = (t < rnd (of_int \<bar>int (length prev) - int (length current)\<bar>
                        / of_nat (max (length prev) (length current)))))"
  by (auto simp: detectDialog_def sizeDiff_def Let_def num_gt_def num_lt_irrefl)

text \<open>
  Captures of 4 and 2 bytes score one half: nothing is detected at threshold 1/2, and a
  dialog is detected at threshold 49/100.
\<close>

theorem detectDialog_strict_witness:
  "sizeDiff (\<lambda>q. q) [1, 2, 3, 4] [1, 2] = Fin (1 / 2)
   \<and> \<not> detectDialog (\<lambda>q. q)
         ((DialogDetector_new None :: unit DialogDetector)\<lparr>diffThreshold := Fin (1 / 2)\<rparr>)
         [1, 2, 3, 4] [1, 2]
   \<and> detectDialog (\<lambda>q. q)
         ((DialogDetector_new None :: unit DialogDetector)\<lparr>diffThreshold := Fin (49 / 100)\<rparr>)
         [1, 2, 3, 4] [1, 2]"
  using
    detectDialog_strict [of "\<lambda>q. q"
      "(DialogDetector_new None :: unit DialogDetector)\<lparr>diffThreshold := Fin (1 / 2)\<rparr>"
      "[1, 2, 3, 4]" "[1, 2]" "1 / 2"]
    detectDialog_strict [of "\<lambda>q. q"
      "(DialogDetector_new None :: unit DialogDetector)\<lparr>diffThreshold := Fin (49 / 100)\<rparr>"
      "[1, 2, 3, 4]" "[1, 2]" "49 / 100"]
  by (simp add: num_gt_def)

subsection \<open>The lifecycle invariant\<close>

lemma run_append: "run rnd (es @ fs) r = run rnd fs (run rnd es r)"
  by (simp add: run_def)

lemma run_calls_Cons: "run_calls rnd (c # cs) r = run_calls rnd cs (run rnd (events_of c) r)"
  by (simp add: run_calls_def run_append)

lemma quiescent_boot: "quiescent (boot (DialogDetector_new options))"
  by (simp add: quiescent_def boot_def DialogDetector_new_def)

lemma quiescent_call: "quiescent r \<Longrightarrow> quiescent (run rnd (events_of c) r)"
  by (cases c)
    (auto simp: quiescent_def run_def startMonitoring_begin_def startMonitoring_resume_def
      stopMonitoring_def checkForDialog_captured_def checkForDialog_notify_def
      checkForDialog_finish_def setScreenshotInterval_def setDiffThreshold_def
      clearInterval_def Let_def split: sum.splits option.splits if_splits)

lemma quiescent_run_calls: "quiescent r \<Longrightarrow> quiescent (run_calls rnd cs r)"
proof (induction cs arbitrary: r)
  case Nil
  then show ?case by (simp add: run_calls_def run_def)
next
  case (Cons c cs)
  then show ?case by (simp add: run_calls_Cons quiescent_call)
qed

lemma quiescent_only_while_monitoring: "quiescent r \<Longrightarrow> only_while_monitoring (detector r)"
  by (auto simp: quiescent_def only_while_monitoring_def split: if_splits)

text \<open>
  Claim C7, for calls and check cycles that run to completion: after any sequence of calls
  and check cycles on a new monitor, each followed by its continuations before the next call
  is made or the next cycle begins, and with a callback that makes no call on the monitor,
  the baseline and the callback are present only while \<open>monitoring\<close> is true.
  \<open>startMonitoring\<close> on a monitor that is monitoring returns at its guard and changes no
  field, so the first callback stays; \<open>stopMonitoring\<close> on a monitor that is monitoring
  clears the timer, the baseline and the callback and sets \<open>monitoring\<close> to false.
\<close>

theorem completed_calls_only_while_monitoring:
  "only_while_monitoring (detector (run_calls rnd cs (boot (DialogDetector_new options))))
   \<and> (monitoring d \<longrightarrow> startMonitoring_begin (Some cb) d = (d, False))
   \<and> (monitoring d \<longrightarrow>
        fst (stopMonitoring d)
          = d\<lparr>monitoring := False, monitorTimer := None,
               previousScreenshot := None, detectionCallback := None\<rparr>)"
  by (simp add: quiescent_only_while_monitoring quiescent_run_calls quiescent_boot
      startMonitoring_begin_def stopMonitoring_def)

theorem completed_calls_only_while_monitoring_witness:
  "only_while_monitoring (detector (run_calls (\<lambda>q. q)
       [StartMonitoring (7::nat) (Inr [1, 2]), StartMonitoring 8 (Inr []),
        CheckCycle (Inr [1, 2, 3]) ''2026-01-01T00:00:00.000Z'' ''2026-01-01T00:00:00.001Z'' None,
        StopMonitoring]
       (boot (DialogDetector_new None))))
   \<and> startMonitoring_begin (Some 8)
        ((DialogDetector_new None)\<lparr>monitoring := True, detectionCallback := Some (7::nat)\<rparr>)
       = ((DialogDetector_new None)\<lparr>monitoring := True, detectionCallback := Some 7\<rparr>, False)
   \<and> fst (stopMonitoring
        ((DialogDetector_new None)\<lparr>monitoring := True, detectionCallback := Some (7::nat)\<rparr>))
       = (DialogDetector_new None)\<lparr>monitoring := False, monitorTimer := None,
            previousScreenshot := None, detectionCallback := None\<rparr>"
  using completed_calls_only_while_monitoring
    [where rnd = "\<lambda>q. q" and options = None and cb = "8::nat"
       and cs = "[StartMonitoring (7::nat) (Inr [1, 2]), StartMonitoring 8 (Inr []),
          CheckCycle (Inr [1, 2, 3]) ''2026-01-01T00:00:00.000Z'' ''2026-01-01T00:00:00.001Z'' None,
          StopMonitoring]"
       and d = "(DialogDetector_new None)\<lparr>monitoring := True, detectionCallback := Some (7::nat)\<rparr>"]
  by simp

text \<open>
  The invariant of claim C7 fails for calls that overlap: \<open>stopMonitoring\<close> called while
  \<open>startMonitoring\<close> is suspended at its capture finds the monitor monitoring and stops it;
  the continuation of \<open>startMonitoring\<close> then stores the baseline and creates the timer on a
  monitor that is not monitoring.
\<close>

theorem stop_while_start_suspended:
  "\<not> only_while_monitoring (detector (run (\<lambda>q. q)
       [CallStart (7::nat), CallStop, ResumeStart (Inr [])] (boot (DialogDetector_new None))))
   \<and> previousScreenshot (detector (run (\<lambda>q. q)
       [CallStart (7::nat), CallStop, ResumeStart (Inr [])] (boot (DialogDetector_new None))))
       = Some []
   \<and> \<not> monitoring (detector (run (\<lambda>q. q)
       [CallStart (7::nat), CallStop, ResumeStart (Inr [])] (boot (DialogDetector_new None))))"
  by (simp add: only_while_monitoring_def run_def boot_def DialogDetector_new_def
      startMonitoring_begin_def startMonitoring_resume_def stopMonitoring_def clearInterval_def)

text \<open>
  The same happens when \<open>stopMonitoring\<close> is called while a check cycle is suspended at its
  capture, and when the callback of a cycle calls \<open>stopMonitoring\<close>: in both cases the cycle
  makes its capture the baseline of a monitor that has been stopped.
\<close>

lemma stop_while_cycle_suspended:
  "\<not> only_while_monitoring (detector (run (\<lambda>q. q)
       [CallStart (7::nat), ResumeStart (Inr []), TimerFires, CallStop,
        ResumeCapture (Inr [1]) ''2026-01-01T00:00:00.000Z'']
       (boot (DialogDetector_new None))))"
  by (simp add: only_while_monitoring_def run_def boot_def DialogDetector_new_def
      startMonitoring_begin_def startMonitoring_resume_def stopMonitoring_def clearInterval_def
      checkForDialog_captured_def)

lemma callback_stops_monitor:
  "\<not> only_while_monitoring (detector (run (\<lambda>q. q)
       [CallStart (7::nat), ResumeStart (Inr [1, 2, 3, 4]), TimerFires,
        ResumeCapture (Inr [1]) ''2026-01-01T00:00:00.000Z'',
        ResumeSave ''2026-01-01T00:00:00.001Z'' [StopRequest] None]
       (boot (DialogDetector_new None))))"
  by (simp add: only_while_monitoring_def run_def boot_def DialogDetector_new_def
      startMonitoring_begin_def startMonitoring_resume_def stopMonitoring_def clearInterval_def
      checkForDialog_captured_def checkForDialog_notify_def checkForDialog_finish_def
      detectDialog_def sizeDiff_def num_gt_def number_or_def saveScreenshot_def string_or_def)

text \<open>
  Claim C8 says that every threshold outside the interval from 0 to 1 is refused. The test
  of the code is \<open>threshold < 0 || threshold > 1\<close>, which NaN passes: \<open>setDiffThreshold(NaN)\<close>
  returns normally and stores NaN, a value that is neither at least 0 nor at most 1.
\<close>

theorem setDiffThreshold_accepts_NaN:
  "setDiffThreshold NaN (DialogDetector_new None :: unit DialogDetector)
     = Inr ((DialogDetector_new None)\<lparr>diffThreshold := NaN\<rparr>)
   \<and> \<not> (num_lt (Fin 0) NaN \<or> NaN = Fin 0) \<and> \<not> (num_lt NaN (Fin 1) \<or> NaN = Fin 1)"
  by (simp add: setDiffThreshold_def num_gt_def)

text \<open>
  The rest of claim C8 holds: a threshold below 0 or above 1 is refused and no field
  changes (the call returns no new state), and a threshold from 0 to 1 is stored with no
  other field touched.
\<close>

lemma setDiffThreshold_range:
  "(num_lt t (Fin 0) \<or> num_gt t (Fin 1)
      \<longrightarrow> setDiffThreshold t d = Inl (Error ''Threshold must be between 0 and 1''))
   \<and> (0 \<le> q \<and> q \<le> 1 \<longrightarrow> setDiffThreshold (Fin q) d = Inr (d\<lparr>diffThreshold := Fin q\<rparr>))"
  by (auto simp: setDiffThreshold_def num_gt_def)

text \<open>
  Claim C10: an option \<open>diffThreshold\<close> of 0 gives the default 0.1, and an option
  \<open>screenshotInterval\<close> of 0 gives the default 5000. No options give a new monitor the
  threshold 0, although \<open>setDiffThreshold(0)\<close> is accepted and stores 0.
\<close>

theorem constructor_zero_takes_default:
  "(opt_diffThreshold options = Some (Fin 0)
      \<longrightarrow> diffThreshold (DialogDetector_new (Some options) :: 'cb DialogDetector) = Fin (1 / 10))
   \<and> (opt_screenshotInterval options = Some (Fin 0)
      \<longrightarrow> screenshotInterval (DialogDetector_new (Some options) :: 'cb DialogDetector) = Fin 5000)
   \<and> diffThreshold (DialogDetector_new opts :: 'cb DialogDetector) \<noteq> Fin 0
   \<and> setDiffThreshold (Fin 0) (d :: 'cb DialogDetector) = Inr (d\<lparr>diffThreshold := Fin 0\<rparr>)"
  by (auto simp: DialogDetector_new_def number_or_def falsy_def setDiffThreshold_def num_gt_def
      split: option.splits)

theorem constructor_zero_takes_default_witness:
  "diffThreshold (DialogDetector_new
       (Some \<lparr> opt_screenshotInterval = Some (Fin 0), opt_diffThreshold = Some (Fin 0),
               opt_screenshotDir = None \<rparr>) :: unit DialogDetector) = Fin (1 / 10)
   \<and> screenshotInterval (DialogDetector_new
       (Some \<lparr> opt_screenshotInterval = Some (Fin 0), opt_diffThreshold = Some (Fin 0),
               opt_screenshotDir = None \<rparr>) :: unit DialogDetector) = Fin 5000"
  using constructor_zero_takes_default
    [where 'cb = unit and options = "\<lparr> opt_screenshotInterval = Some (Fin 0),
            opt_diffThreshold = Some (Fin 0), opt_screenshotDir = None \<rparr>"]
  by simp

section \<open>Properties of the MCP client\<close>

lemma ensureConnection_keeps_client:
  "isConnected c \<longrightarrow> client c \<noteq> None \<Longrightarrow>
     isConnected (snd (ensureConnection attempt c)) \<longrightarrow> client (snd (ensureConnection attempt c)) \<noteq> None"
  by (cases attempt) (auto simp: ensureConnection_def Let_def)

lemma callTool_state:
  "snd (callTool stringify attempt remote toolName params c) = snd (ensureConnection attempt c)"
  by (auto simp: callTool_def callTool_try_def Let_def split: prod.splits sum.splits call_outcome.splits)

lemma close_keeps_client:
  "isConnected c \<longrightarrow> client c \<noteq> None \<Longrightarrow>
     isConnected (snd (close closing c)) \<longrightarrow> client (snd (close closing c)) \<noteq> None"
  by (auto simp: close_def split: option.splits)

lemma apply_op_keeps_client:
  "isConnected c \<longrightarrow> client c \<noteq> None \<Longrightarrow>
     isConnected (apply_op stringify op c) \<longrightarrow> client (apply_op stringify op c) \<noteq> None"
  by (cases op) (simp_all add: ensureConnection_keeps_client callTool_state close_keeps_client)

lemma after_ops_keeps_client:
  "isConnected c \<longrightarrow> client c \<noteq> None \<Longrightarrow>
     isConnected (after_ops stringify ops c) \<longrightarrow> client (after_ops stringify ops c) \<noteq> None"
proof (induction ops arbitrary: c)
  case Nil
  then show ?case by (simp add: after_ops_def)
next
  case (Cons op ops)
  have "after_ops stringify (op # ops) c = after_ops stringify ops (apply_op stringify op c)"
    by (simp add: after_ops_def)
  with Cons.IH [OF apply_op_keeps_client [OF Cons.prems]] show ?case by simp
qed

text \<open>
  Claim C2, as far as it holds: after any sequence of \<open>ensureConnection\<close>, \<open>callTool\<close> and
  \<open>close\<close>, each run to completion and whatever the connection attempts, the remote calls
  and \<open>client.close()\<close> do, a client that is marked connected holds a connection handle.
\<close>

theorem connected_has_client:
  "isConnected (after_ops stringify ops (ChromeMCPClient_new url))
     \<longrightarrow> client (after_ops stringify ops (ChromeMCPClient_new url)) \<noteq> None"
  by (rule after_ops_keeps_client) (simp add: ChromeMCPClient_new_def)

theorem connected_has_client_witness:
  "isConnected (after_ops (\<lambda>c. []) [CallTool ConnectOk (\<lambda>n p. CallThrows (Error ''timeout'')) ''navigate'' ()]
       (ChromeMCPClient_new None))
   \<and> client (after_ops (\<lambda>c. []) [CallTool ConnectOk (\<lambda>n p. CallThrows (Error ''timeout'')) ''navigate'' ()]
       (ChromeMCPClient_new None)) \<noteq> None"
  using connected_has_client [of "\<lambda>c. []" "[CallTool ConnectOk (\<lambda>n p. CallThrows (Error ''timeout'')) ''navigate'' ()]" None]
  by (simp add: after_ops_def callTool_state ensureConnection_def ChromeMCPClient_new_def)

text \<open>
  The other direction of claim C2 fails: \<open>ensureConnection\<close> assigns \<open>this.client\<close> before it
  connects, and its \<open>catch\<close> resets \<open>isConnected\<close> only. After a \<open>callTool\<close> whose connection
  attempt is refused, the handle is present and the client is not connected.
\<close>

theorem failed_connect_keeps_client:
  "client (after_ops (\<lambda>c. [])
       [CallTool (ConnectThrows (Error ''fetch failed'')) (\<lambda>n p. CallThrows (Error ''unused'')) ''navigate'' ()]
       (ChromeMCPClient_new None))
     = Some \<lparr>client_name = ''chrome-mcp-wrapper'', client_version = ''1.0.0''\<rparr>
   \<and> \<not> isConnected (after_ops (\<lambda>c. [])
       [CallTool (ConnectThrows (Error ''fetch failed'')) (\<lambda>n p. CallThrows (Error ''unused'')) ''navigate'' ()]
       (ChromeMCPClient_new None))"
  by (simp add: after_ops_def callTool_state ensureConnection_def ChromeMCPClient_new_def)

text \<open>
  Claim C4: \<open>callTool\<close> always returns a result and never throws. A result with
  \<open>success = true\<close> carries \<open>data\<close> and no \<open>error\<close>; a result with \<open>success = false\<close> carries
  \<open>error\<close> and no \<open>data\<close>. A failed connection and a failed remote call give
  \<open>success = false\<close> with the message of what was thrown; a result the server flags as an
  error gives \<open>success = false\<close> with the serialized content; any other result gives
  \<open>success = true\<close> with \<open>data\<close>.
\<close>

theorem callTool_returns_result:
  "(\<exists>r. fst (callTool stringify attempt remote toolName params c) = Inr r
        \<and> (success r \<longrightarrow> data r \<noteq> None \<and> error r = None)
        \<and> (\<not> success r \<longrightarrow> error r \<noteq> None \<and> data r = None))
   \<and> (fst (ensureConnection attempt c) = Inl e \<longrightarrow>
        fst (callTool stringify attempt remote toolName params c)
          = Inr \<lparr>success = False, data = None, error = Some (message_of e)\<rparr>)
   \<and> (fst (ensureConnection attempt c) = Inr () \<and> remote toolName params = CallThrows e \<longrightarrow>
        fst (callTool stringify attempt remote toolName params c)
          = Inr \<lparr>success = False, data = None, error = Some (message_of e)\<rparr>)
   \<and> (fst (ensureConnection attempt c) = Inr () \<and> remote toolName params = CallReturns res
        \<and> isError res \<longrightarrow>
        fst (callTool stringify attempt remote toolName params c)
          = Inr \<lparr>success = False, data = None,
                  error = Some (''Tool execution failed: '' @ stringify (content res))\<rparr>)
   \<and> (fst (ensureConnection attempt c) = Inr () \<and> remote toolName params = CallReturns res
        \<and> \<not> isError res \<longrightarrow>
        (\<exists>v. fst (callTool stringify attempt remote toolName params c)
          = Inr \<lparr>success = True, data = Some v, error = None\<rparr>))"
  by (cases attempt; cases "remote toolName params")
     (auto simp: callTool_def callTool_try_def ensureConnection_def Let_def)

theorem callTool_returns_result_witness:
  "fst (callTool (\<lambda>c. ''[]'') (ConnectThrows (Error ''fetch failed''))
         (\<lambda>n p. CallThrows (Error ''unused'')) ''navigate'' () (ChromeMCPClient_new None))
     = Inr \<lparr>success = False, data = None, error = Some ''fetch failed''\<rparr>
   \<and> fst (callTool (\<lambda>c. ''[]'') ConnectOk
         (\<lambda>n p. CallThrows (NonError ''Request timed out'')) ''navigate'' () (ChromeMCPClient_new None))
     = Inr \<lparr>success = False, data = None, error = Some ''Request timed out''\<rparr>
   \<and> fst (callTool (\<lambda>c. ''[]'') ConnectOk
         (\<lambda>n p. CallReturns \<lparr>isError = True, content = []\<rparr>) ''navigate'' () (ChromeMCPClient_new None))
     = Inr \<lparr>success = False, data = None, error = Some ''Tool execution failed: []''\<rparr>
   \<and> fst (callTool (\<lambda>c. ''[]'') ConnectOk
         (\<lambda>n p. CallReturns \<lparr>isError = False,
              content = [\<lparr>item_type = ''text'', item_text = Some ''Navigated''\<rparr>]\<rparr>)
         ''navigate'' () (ChromeMCPClient_new None))
     = Inr \<lparr>success = True, data = Some (Text ''Navigated''), error = None\<rparr>"
  using
    callTool_returns_result [of "\<lambda>c. ''[]''" "ConnectThrows (Error ''fetch failed'')"
      "\<lambda>n p. CallThrows (Error ''unused'')" "''navigate''" "()" "ChromeMCPClient_new None"
      "Error ''fetch failed''"]
    callTool_returns_result [of "\<lambda>c. ''[]''" ConnectOk
      "\<lambda>n p. CallThrows (NonError ''Request timed out'')" "''navigate''" "()"
      "ChromeMCPClient_new None" "NonError ''Request timed out''"]
    callTool_returns_result [of "\<lambda>c. ''[]''" ConnectOk
      "\<lambda>n p. CallReturns \<lparr>isError = True, content = []\<rparr>" "''navigate''" "()"
      "ChromeMCPClient_new None" "Error []" "\<lparr>isError = True, content = []\<rparr>"]
    callTool_returns_result [of "\<lambda>c. ''[]''" ConnectOk
      "\<lambda>n p. CallReturns \<lparr>isError = False,
              content = [\<lparr>item_type = ''text'', item_text = Some ''Navigated''\<rparr>]\<rparr>"
      "''navigate''" "()" "ChromeMCPClient_new None" "Error []"
      "\<lparr>isError = False, content = [\<lparr>item_type = ''text'', item_text = Some ''Navigated''\<rparr>]\<rparr>"]
  by (simp add: ensureConnection_def ChromeMCPClient_new_def message_of_def callTool_def
      callTool_try_def)

section \<open>Properties of the session registry\<close>

lemma Map_set_absent: "\<not> Map_has k m \<Longrightarrow> Map_set k v m = m @ [(k, v)]"
  by (induction m) (auto simp: Map_has_def)

lemma ephemeral_name_nonempty: "ephemeral_name i \<noteq> []"
  by (simp add: ephemeral_name_def)

lemma createSession_named:
  "n \<noteq> [] \<Longrightarrow>
     createSession (Some n) m =
       (if Map_has n (sessions m)
        then (Inl (Error (''Session \"'' @ n @ ''\" already exists'')), m)
        else (Inr (ChromeSession_new n), m\<lparr>sessions := sessions m @ [(n, ChromeSession_new n)]\<rparr>))"
  by (simp add: createSession_def Let_def Map_set_absent)

lemma with_ephemeral_taken:
  "Map_has (ephemeral_name i) (sessions m) \<Longrightarrow>
     snd (fst (with_ephemeral task i m)) = None \<and> snd (with_ephemeral task i m) = m
     \<and> (\<exists>e. fst (fst (with_ephemeral task i m)) = (0, Inl e))"
  by (simp add: with_ephemeral_def createSession_named ephemeral_name_nonempty)

lemma with_ephemeral_free:
  "\<not> Map_has (ephemeral_name i) (sessions m) \<Longrightarrow>
     with_ephemeral task i m =
       ((task (ChromeSession_new (ephemeral_name i)), Some (ephemeral_name i)),
        m\<lparr>sessions := sessions m @ [(ephemeral_name i, ChromeSession_new (ephemeral_name i))]\<rparr>)"
  by (simp add: with_ephemeral_def createSession_named ephemeral_name_nonempty getSessionId_def
      ChromeSession_new_def)

lemma start_all_sessions:
  "start_all tasks i m = (ws, m') \<Longrightarrow>
     sessions m' = sessions m @ ephemeral_sessions ws
     \<and> sessionCounter m' = sessionCounter m
     \<and> distinct (map fst (ephemeral_sessions ws))
     \<and> (\<forall>n \<in> set (map fst (ephemeral_sessions ws)). \<not> Map_has n (sessions m))"
proof (induction tasks arbitrary: i m ws m')
  case Nil
  then show ?case by (simp add: ephemeral_sessions_def)
next
  case (Cons task rest)
  obtain w m1 where w: "with_ephemeral task i m = (w, m1)" by (cases "with_ephemeral task i m")
  obtain ws' m2 where r: "start_all rest (Suc i) m1 = (ws', m2)" by (cases "start_all rest (Suc i) m1")
  from Cons.prems w r have eq: "ws = w # ws'" "m' = m2" by simp_all
  note IH = Cons.IH [OF r]
  show ?case
  proof (cases "Map_has (ephemeral_name i) (sessions m)")
    case True
    from with_ephemeral_taken [OF True, of task] w have "snd w = None" "m1 = m" by simp_all
    with IH eq show ?thesis by (simp add: ephemeral_sessions_def)
  next
    case False
    from with_ephemeral_free [OF False, of task] w
    have sw: "snd w = Some (ephemeral_name i)"
      and m1: "sessions m1 = sessions m @ [(ephemeral_name i, ChromeSession_new (ephemeral_name i))]"
      and c1: "sessionCounter m1 = sessionCounter m"
      by auto
    from sw have e: "ephemeral_sessions (w # ws') =
        (ephemeral_name i, ChromeSession_new (ephemeral_name i)) # ephemeral_sessions ws'"
      by (simp add: ephemeral_sessions_def)
    from IH m1 c1 False show ?thesis
      unfolding eq e by (auto simp: Map_has_def)
  qed
qed

lemma removeSession_fields:
  "sessions (removeSession n m) = filter (\<lambda>p. fst p \<noteq> n) (sessions m)"
  "sessionCounter (removeSession n m) = sessionCounter m"
  by (simp_all add: removeSession_def Map_delete_def)

lemma removeSession_foldl:
  "sessions (foldl (\<lambda>m n. removeSession n m) m ns) = filter (\<lambda>p. fst p \<notin> set ns) (sessions m)
   \<and> sessionCounter (foldl (\<lambda>m n. removeSession n m) m ns) = sessionCounter m"
proof (induction ns arbitrary: m)
  case Nil
  then show ?case by simp
next
  case (Cons n ns)
  show ?case
    by (simp add: Cons.IH [of "removeSession n m"] removeSession_fields conj_commute)
qed

lemma removed_by_subset: "set (removed_by t ws) \<subseteq> set (map fst (ephemeral_sessions ws))"
  by (induction ws) (auto simp: removed_by_def ephemeral_sessions_def split: option.splits)

lemma filter_in_flight:
  "distinct (map fst (ephemeral_sessions ws)) \<Longrightarrow>
     filter (\<lambda>p. fst p \<notin> set (removed_by t ws)) (ephemeral_sessions ws) = in_flight t ws"
proof (induction ws)
  case Nil
  then show ?case by (simp add: ephemeral_sessions_def in_flight_def removed_by_def)
next
  case (Cons w ws)
  show ?case
  proof (cases "snd w")
    case None
    then have "ephemeral_sessions (w # ws) = ephemeral_sessions ws"
      "removed_by t (w # ws) = removed_by t ws" "in_flight t (w # ws) = in_flight t ws"
      by (simp_all add: ephemeral_sessions_def removed_by_def in_flight_def)
    with Cons show ?thesis by simp
  next
    case (Some n)
    then have e: "ephemeral_sessions (w # ws) = (n, ChromeSession_new n) # ephemeral_sessions ws"
      by (simp add: ephemeral_sessions_def)
    with Cons.prems have fresh: "n \<notin> set (map fst (ephemeral_sessions ws))"
      and d: "distinct (map fst (ephemeral_sessions ws))" by simp_all
    from fresh removed_by_subset [of t ws] have nr: "n \<notin> set (removed_by t ws)" by blast
    have rest: "filter (\<lambda>p. fst p \<noteq> n \<and> fst p \<notin> set (removed_by t ws)) (ephemeral_sessions ws)
        = filter (\<lambda>p. fst p \<notin> set (removed_by t ws)) (ephemeral_sessions ws)"
      using fresh by (intro filter_cong) auto
    show ?thesis
    proof (cases "fst (fst w) \<le> t")
      case True
      with Some have "removed_by t (w # ws) = n # removed_by t ws"
        "in_flight t (w # ws) = in_flight t ws"
        by (simp_all add: removed_by_def in_flight_def)
      with e rest Cons.IH [OF d] show ?thesis by simp
    next
      case False
      with Some have "removed_by t (w # ws) = removed_by t ws"
        "in_flight t (w # ws) = (n, ChromeSession_new n) # in_flight t ws"
        by (simp_all add: removed_by_def in_flight_def)
      with e nr Cons.IH [OF d] show ?thesis by simp
    qed
  qed
qed

lemma registry_at_runParallel:
  "registry_at t (runParallel tasks m)
     = m\<lparr>sessions := sessions m @ in_flight t (callbacks (runParallel tasks m))\<rparr>"
proof -
  obtain ws m' where s: "start_all tasks 0 m = (ws, m')" by (cases "start_all tasks 0 m")
  note f = start_all_sessions [OF s]
  have "fst p \<notin> set (removed_by t ws)" if "p \<in> set (sessions m)" for p
  proof
    assume "fst p \<in> set (removed_by t ws)"
    with removed_by_subset [of t ws] have "fst p \<in> set (map fst (ephemeral_sessions ws))" by blast
    with f have "\<not> Map_has (fst p) (sessions m)" by blast
    with that show False by (simp add: Map_has_def)
  qed
  then have keep: "filter (\<lambda>p. fst p \<notin> set (removed_by t ws)) (sessions m) = sessions m"
    by (intro filter_True) blast
  have "sessions (registry_at t (runParallel tasks m)) = sessions m @ in_flight t ws"
    using f by (simp add: registry_at_def runParallel_def s removeSession_foldl keep filter_in_flight)
  moreover have "sessionCounter (registry_at t (runParallel tasks m)) = sessionCounter m"
    using f by (simp add: registry_at_def runParallel_def s removeSession_foldl)
  ultimately show ?thesis by (simp add: runParallel_def s)
qed

lemma foldl_max_upper: "(a::nat) \<le> foldl max a xs \<and> (\<forall>x \<in> set xs. x \<le> foldl max a xs)"
proof (induction xs arbitrary: a)
  case Nil
  then show ?case by simp
next
  case (Cons x xs)
  from Cons.IH [of "max a x"] show ?case by auto
qed

lemma in_flight_empty: "\<forall>w \<in> set ws. fst (fst w) \<le> t \<Longrightarrow> in_flight t ws = []"
  by (induction ws) (auto simp: in_flight_def split: option.splits)

lemma in_flight_at_last: "in_flight (foldl max 0 (map (\<lambda>w. fst (fst w)) ws)) ws = []"
  using foldl_max_upper [of 0 "map (\<lambda>w. fst (fst w)) ws"] by (intro in_flight_empty) auto

lemma registry_at_rest_runParallel: "registry_at_rest (runParallel tasks m) = m"
  by (simp add: registry_at_rest_def registry_at_runParallel in_flight_at_last)

lemma Promise_all_resolved:
  "snd (Promise_all ps) = Inr vs \<Longrightarrow>
     rejections ps = [] \<and> vs = resolutions ps \<and> fst (Promise_all ps) = foldl max 0 (map fst ps)"
  by (auto simp: Promise_all_def split: list.splits)

lemma no_rejections:
  "rejections ps = [] \<Longrightarrow>
     length (resolutions ps) = length ps \<and> (\<forall>k<length ps. snd (ps ! k) = Inr (resolutions ps ! k))"
proof (induction ps)
  case Nil
  then show ?case by (simp add: resolutions_def)
next
  case (Cons p ps)
  from Cons.prems obtain v where v: "snd p = Inr v" and r: "rejections ps = []"
    by (cases "snd p") (auto simp: rejections_def)
  from v have e: "resolutions (p # ps) = v # resolutions ps" by (simp add: resolutions_def)
  from Cons.IH [OF r] v show ?case unfolding e by (auto simp: nth_Cons split: nat.splits)
qed

lemma start_all_nth:
  "start_all tasks i m = (ws, m') \<Longrightarrow>
     length ws = length tasks
     \<and> (\<forall>k<length tasks.
          (\<exists>e. fst (ws ! k) = (0, Inl e))
          \<or> ws ! k = ((tasks ! k) (ChromeSession_new (ephemeral_name (i + k))), Some (ephemeral_name (i + k))))"
proof (induction tasks arbitrary: i m ws m')
  case Nil
  then show ?case by simp
next
  case (Cons task rest)
  obtain w m1 where w: "with_ephemeral task i m = (w, m1)" by (cases "with_ephemeral task i m")
  obtain ws' m2 where r: "start_all rest (Suc i) m1 = (ws', m2)" by (cases "start_all rest (Suc i) m1")
  from Cons.prems w r have eq: "ws = w # ws'" by simp
  have hd: "(\<exists>e. fst w = (0, Inl e)) \<or> w = (task (ChromeSession_new (ephemeral_name i)), Some (ephemeral_name i))"
    using with_ephemeral_taken [of i m task] with_ephemeral_free [of i m task] w
    by (cases "Map_has (ephemeral_name i) (sessions m)") auto
  from Cons.IH [OF r] hd show ?case unfolding eq by (auto simp: nth_Cons split: nat.splits)
qed

lemma runParallel_resolved:
  assumes "snd (returned (runParallel tasks m)) = Inr vs"
  shows "length vs = length tasks
     \<and> (\<forall>i<length tasks. snd ((tasks ! i) (ChromeSession_new (ephemeral_name i))) = Inr (vs ! i))
     \<and> registry_on_return (runParallel tasks m) = m"
proof -
  obtain ws m' where s: "start_all tasks 0 m = (ws, m')" by (cases "start_all tasks 0 m")
  have ret: "returned (runParallel tasks m) = Promise_all (map fst ws)"
    and cb: "callbacks (runParallel tasks m) = ws"
    by (simp_all add: runParallel_def s)
  from assms ret have pa: "snd (Promise_all (map fst ws)) = Inr vs" by simp
  note P = Promise_all_resolved [OF pa]
  from P have nr: "rejections (map fst ws) = []" and vs: "vs = resolutions (map fst ws)" by simp_all
  note N = no_rejections [OF nr]
  note S = start_all_nth [OF s]
  from N S vs have len: "length vs = length tasks" by simp
  have val: "snd ((tasks ! i) (ChromeSession_new (ephemeral_name i))) = Inr (vs ! i)" if "i < length tasks" for i
  proof -
    from that S have k: "i < length ws" by simp
    with N vs have v: "snd (fst (ws ! i)) = Inr (vs ! i)" by simp
    from S that have "(\<exists>e. fst (ws ! i) = (0, Inl e))
        \<or> ws ! i = ((tasks ! i) (ChromeSession_new (ephemeral_name (0 + i))), Some (ephemeral_name (0 + i)))"
      by blast
    with v show ?thesis by auto
  qed
  have "fst (returned (runParallel tasks m)) = foldl max 0 (map (\<lambda>w. fst (fst w)) ws)"
    using P ret by (simp add: comp_def)
  then have "registry_on_return (runParallel tasks m) = registry_at_rest (runParallel tasks m)"
    by (simp add: registry_on_return_def registry_at_rest_def cb)
  with len val show ?thesis by (simp add: registry_at_rest_runParallel)
qed

lemma show_nat_nonempty: "show_nat n \<noteq> []"
  by (subst show_nat.simps) simp

lemma digit_inj:
  "a < 10 \<Longrightarrow> b < 10 \<Longrightarrow> ''0123456789'' ! a = ''0123456789'' ! b \<Longrightarrow> a = b"
  by (simp add: nth_eq_iff_index_eq)

lemma show_nat_inj: "show_nat a = show_nat b \<Longrightarrow> a = b"
proof (induction a arbitrary: b rule: show_nat.induct)
  case (1 a)
  show ?case
  proof (cases "a < 10")
    case True
    then have sa: "show_nat a = [''0123456789'' ! a]" by (subst show_nat.simps) simp
    show ?thesis
    proof (cases "b < 10")
      case True
      then have "show_nat b = [''0123456789'' ! b]" by (subst show_nat.simps) simp
      with sa "1.prems" \<open>a < 10\<close> True show ?thesis by (simp add: digit_inj)
    next
      case False
      then have "show_nat b = show_nat (b div 10) @ [''0123456789'' ! (b mod 10)]"
        by (subst show_nat.simps) simp
      with sa "1.prems" show_nat_nonempty [of "b div 10"] show ?thesis by simp
    qed
  next
    case False
    then have sa: "show_nat a = show_nat (a div 10) @ [''0123456789'' ! (a mod 10)]"
      by (subst show_nat.simps) simp
    show ?thesis
    proof (cases "b < 10")
      case True
      then have "show_nat b = [''0123456789'' ! b]" by (subst show_nat.simps) simp
      with sa "1.prems" show_nat_nonempty [of "a div 10"] show ?thesis by simp
    next
      case bf: False
      then have sb: "show_nat b = show_nat (b div 10) @ [''0123456789'' ! (b mod 10)]"
        by (subst show_nat.simps) simp
      from sa sb "1.prems" have p: "show_nat (a div 10) = show_nat (b div 10)"
        and d: "''0123456789'' ! (a mod 10) = ''0123456789'' ! (b mod 10)" by simp_all
      from "1.IH" [OF False p] have q: "a div 10 = b div 10" .
      from d have r: "a mod 10 = b mod 10" by (intro digit_inj) simp_all
      from q r show ?thesis by (metis div_mult_mod_eq)
    qed
  qed
qed

lemma ephemeral_name_inj: "ephemeral_name a = ephemeral_name b \<Longrightarrow> a = b"
  by (simp add: ephemeral_name_def show_nat_inj)

lemma Map_has_append: "Map_has n (xs @ [(k, v)]) = (Map_has n xs \<or> n = k)"
  by (auto simp: Map_has_def)

lemma start_all_free:
  "\<forall>k<length tasks. \<not> Map_has (ephemeral_name (i + k)) (sessions m) \<Longrightarrow>
     fst (start_all tasks i m)
       = map (\<lambda>k. ((tasks ! k) (ChromeSession_new (ephemeral_name (i + k))), Some (ephemeral_name (i + k))))
           [0..<length tasks]"
proof (induction tasks arbitrary: i m)
  case Nil
  then show ?case by simp
next
  case (Cons task rest)
  from Cons.prems have free: "\<not> Map_has (ephemeral_name i) (sessions m)" by force
  let ?m1 = "m\<lparr>sessions := sessions m @ [(ephemeral_name i, ChromeSession_new (ephemeral_name i))]\<rparr>"
  have "\<not> Map_has (ephemeral_name (Suc i + k)) (sessions ?m1)" if "k < length rest" for k
  proof -
    from that Cons.prems have "\<not> Map_has (ephemeral_name (i + Suc k)) (sessions m)" by force
    moreover have "ephemeral_name (Suc i + k) \<noteq> ephemeral_name i"
      using ephemeral_name_inj [of "Suc i + k" i] by auto
    ultimately show ?thesis by (simp add: Map_has_append)
  qed
  then have IH: "fst (start_all rest (Suc i) ?m1)
       = map (\<lambda>k. ((rest ! k) (ChromeSession_new (ephemeral_name (Suc i + k))), Some (ephemeral_name (Suc i + k))))
           [0..<length rest]"
    by (intro Cons.IH) blast
  obtain ws' m2 where r: "start_all rest (Suc i) ?m1 = (ws', m2)"
    by (cases "start_all rest (Suc i) ?m1")
  have "fst (start_all (task # rest) i m)
      = ((task (ChromeSession_new (ephemeral_name i))), Some (ephemeral_name i)) # ws'"
    by (simp add: with_ephemeral_free [OF free] r)
  with IH r show ?case
    by (simp add: map_upt_Suc del: upt_Suc)
qed

lemma earliest_least:
  "earliest r rs \<in> set (r # rs) \<and> (\<forall>x \<in> set (r # rs). fst (earliest r rs) \<le> fst x)"
proof (induction rs arbitrary: r)
  case Nil
  then show ?case by (simp add: earliest_def)
next
  case (Cons x rs)
  have step: "earliest r (x # rs) = earliest (if fst x < fst r then x else r) rs"
    by (simp add: earliest_def)
  from Cons.IH [of "if fst x < fst r then x else r"] show ?case
    unfolding step by (auto split: if_splits)
qed

lemma rejections_iff: "(t, e) \<in> set (rejections ps) \<longleftrightarrow> (t, Inl e) \<in> set ps"
  by (induction ps) (auto simp: rejections_def split: sum.splits)

lemma Promise_all_rejected:
  assumes "snd (Promise_all ps) = Inl e"
  shows "(fst (Promise_all ps), Inl e) \<in> set ps
     \<and> (\<forall>p \<in> set ps. \<forall>e'. snd p = Inl e' \<longrightarrow> fst (Promise_all ps) \<le> fst p)"
proof (cases "rejections ps")
  case Nil
  with assms show ?thesis by (simp add: Promise_all_def)
next
  case (Cons r rs)
  then have pa: "Promise_all ps = (fst (earliest r rs), Inl (snd (earliest r rs)))"
    by (simp add: Promise_all_def)
  with assms have e: "e = snd (earliest r rs)" by simp
  note E = earliest_least [of r rs]
  from E Cons have "earliest r rs \<in> set (rejections ps)" by simp
  then have "(fst (earliest r rs), snd (earliest r rs)) \<in> set (rejections ps)" by simp
  then have mem: "(fst (earliest r rs), Inl (snd (earliest r rs))) \<in> set ps"
    by (simp only: rejections_iff)
  have "fst (earliest r rs) \<le> fst p" if "p \<in> set ps" "snd p = Inl e'" for p e'
  proof -
    from that have "(fst p, Inl e') \<in> set ps" by (metis prod.collapse)
    then have "(fst p, e') \<in> set (rejections ps)" by (simp only: rejections_iff)
    with E Cons show ?thesis by auto
  qed
  with mem pa e show ?thesis by simp
qed

lemma Promise_all_fails:
  assumes "p \<in> set ps" "snd p = Inl e"
  shows "\<exists>e'. snd (Promise_all ps) = Inl e'"
proof -
  from assms have "(fst p, Inl e) \<in> set ps" by (metis prod.collapse)
  then have "(fst p, e) \<in> set (rejections ps)" by (simp only: rejections_iff)
  then obtain r rs where "rejections ps = r # rs" by (cases "rejections ps") auto
  then show ?thesis by (simp add: Promise_all_def)
qed

lemma runParallel_returned:
  "returned (runParallel tasks m) = Promise_all (map fst (callbacks (runParallel tasks m)))"
  by (cases "start_all tasks 0 m") (simp add: runParallel_def)

text \<open>
  Claim C3, as far as it holds, for tasks that do not touch the registry themselves. At the
  end of any tick the registry is the registry before the call followed by the ephemeral
  sessions of the tasks that have not settled yet: a task's session is removed at the tick
  the task settles, whatever the outcome. Once every task has settled the registry is the
  one before the call. When the call succeeds, the array has one value per task, \<open>vs ! i\<close> is
  what task \<open>i\<close> resolved to on a new session named \<open>parallel-i\<close>, and the registry at return
  is the one before the call. The call fails whenever a callback rejects. When it fails with
  \<open>e\<close>, it does so at the tick at which a callback rejected with \<open>e\<close>, no callback rejected at
  an earlier tick, and the registry at return still holds the sessions of the tasks that have
  not settled by that tick. When no session named \<open>parallel-i\<close> is registered before the call,
  every task is called, task \<open>i\<close> on a new session named \<open>parallel-i\<close>.
\<close>

theorem runParallel_ephemeral_sessions:
  "registry_at t (runParallel tasks m)
     = m\<lparr>sessions := sessions m @ in_flight t (callbacks (runParallel tasks m))\<rparr>
   \<and> registry_at_rest (runParallel tasks m) = m
   \<and> (snd (returned (runParallel tasks m)) = Inr vs \<longrightarrow>
        length vs = length tasks
        \<and> (\<forall>i<length tasks. snd ((tasks ! i) (ChromeSession_new (ephemeral_name i))) = Inr (vs ! i))
        \<and> registry_on_return (runParallel tasks m) = m)
   \<and> ((\<exists>w \<in> set (callbacks (runParallel tasks m)). \<exists>e'. snd (fst w) = Inl e') \<longrightarrow>
        (\<exists>e'. snd (returned (runParallel tasks m)) = Inl e'))
   \<and> (snd (returned (runParallel tasks m)) = Inl e \<longrightarrow>
        (\<exists>w \<in> set (callbacks (runParallel tasks m)).
            fst w = (fst (returned (runParallel tasks m)), Inl e))
        \<and> (\<forall>w \<in> set (callbacks (runParallel tasks m)). \<forall>e'. snd (fst w) = Inl e' \<longrightarrow>
              fst (returned (runParallel tasks m)) \<le> fst (fst w))
        \<and> registry_on_return (runParallel tasks m)
            = m\<lparr>sessions := sessions m
                   @ in_flight (fst (returned (runParallel tasks m))) (callbacks (runParallel tasks m))\<rparr>)
   \<and> ((\<forall>i<length tasks. \<not> Map_has (ephemeral_name i) (sessions m)) \<longrightarrow>
        callbacks (runParallel tasks m)
          = map (\<lambda>i. ((tasks ! i) (ChromeSession_new (ephemeral_name i)), Some (ephemeral_name i)))
              [0..<length tasks])"
proof (intro conjI impI)
  show "registry_at t (runParallel tasks m)
     = m\<lparr>sessions := sessions m @ in_flight t (callbacks (runParallel tasks m))\<rparr>"
    by (rule registry_at_runParallel)
  show "registry_at_rest (runParallel tasks m) = m"
    by (rule registry_at_rest_runParallel)
next
  assume r: "snd (returned (runParallel tasks m)) = Inr vs"
  from runParallel_resolved [OF r]
  show "length vs = length tasks"
    and "\<forall>i<length tasks. snd ((tasks ! i) (ChromeSession_new (ephemeral_name i))) = Inr (vs ! i)"
    and "registry_on_return (runParallel tasks m) = m"
    by simp_all
next
  assume "\<exists>w \<in> set (callbacks (runParallel tasks m)). \<exists>e'. snd (fst w) = Inl e'"
  then obtain w e' where "w \<in> set (callbacks (runParallel tasks m))" "snd (fst w) = Inl e'"
    by blast
  then have "fst w \<in> set (map fst (callbacks (runParallel tasks m)))" "snd (fst w) = Inl e'"
    by simp_all
  from Promise_all_fails [OF this]
  show "\<exists>e'. snd (returned (runParallel tasks m)) = Inl e'"
    by (simp add: runParallel_returned)
next
  assume "snd (returned (runParallel tasks m)) = Inl e"
  then have "snd (Promise_all (map fst (callbacks (runParallel tasks m)))) = Inl e"
    by (simp add: runParallel_returned)
  note P = Promise_all_rejected [OF this]
  from P have "(fst (returned (runParallel tasks m)), Inl e)
      \<in> fst ` set (callbacks (runParallel tasks m))"
    by (simp add: runParallel_returned)
  then show "\<exists>w \<in> set (callbacks (runParallel tasks m)).
      fst w = (fst (returned (runParallel tasks m)), Inl e)"
    by force
  from P show "\<forall>w \<in> set (callbacks (runParallel tasks m)). \<forall>e'. snd (fst w) = Inl e' \<longrightarrow>
      fst (returned (runParallel tasks m)) \<le> fst (fst w)"
    by (simp add: runParallel_returned)
  show "registry_on_return (runParallel tasks m)
      = m\<lparr>sessions := sessions m
             @ in_flight (fst (returned (runParallel tasks m))) (callbacks (runParallel tasks m))\<rparr>"
    unfolding registry_on_return_def by (rule registry_at_runParallel)
next
  assume "\<forall>i<length tasks. \<not> Map_has (ephemeral_name i) (sessions m)"
  then have "fst (start_all tasks 0 m)
          = map (\<lambda>i. ((tasks ! i) (ChromeSession_new (ephemeral_name i)), Some (ephemeral_name i)))
              [0..<length tasks]"
    using start_all_free [of tasks 0 m] by simp
  moreover have "callbacks (runParallel tasks m) = fst (start_all tasks 0 m)"
    by (cases "start_all tasks 0 m") (simp add: runParallel_def)
  ultimately show "callbacks (runParallel tasks m)
          = map (\<lambda>i. ((tasks ! i) (ChromeSession_new (ephemeral_name i)), Some (ephemeral_name i)))
              [0..<length tasks]"
    by simp
qed

lemma ephemeral_names: "ephemeral_name 0 = ''parallel-0''" "ephemeral_name 1 = ''parallel-1''"
  "ephemeral_name 2 = ''parallel-2''" "ephemeral_name (Suc 0) = ''parallel-1''" "ephemeral_name (Suc (Suc 0)) = ''parallel-2''"
  by (simp_all add: ephemeral_name_def show_nat.simps)

lemma run3:
  "start_all [delayed a x, delayed b y, delayed c z] 0 SessionManager_new
    = ([((a, x), Some ''parallel-0''), ((b, y), Some ''parallel-1''), ((c, z), Some ''parallel-2'')],
       \<lparr>sessions = [(''parallel-0'', ChromeSession_new ''parallel-0''),
                    (''parallel-1'', ChromeSession_new ''parallel-1''),
                    (''parallel-2'', ChromeSession_new ''parallel-2'')], sessionCounter = 0\<rparr>)"
  by (simp add: with_ephemeral_def createSession_def ephemeral_names SessionManager_new_def delayed_def
      Map_has_def getSessionId_def ChromeSession_new_def Let_def)

lemma run3_returned:
  "runParallel [delayed a x, delayed b y, delayed c z] SessionManager_new
    = \<lparr> callbacks = [((a, x), Some ''parallel-0''), ((b, y), Some ''parallel-1''), ((c, z), Some ''parallel-2'')],
        started = \<lparr>sessions = [(''parallel-0'', ChromeSession_new ''parallel-0''),
                    (''parallel-1'', ChromeSession_new ''parallel-1''),
                    (''parallel-2'', ChromeSession_new ''parallel-2'')], sessionCounter = 0\<rparr>,
        returned = Promise_all [(a, x), (b, y), (c, z)] \<rparr>"
  unfolding runParallel_def run3 by simp

text \<open>
  Three tasks that settle at ticks 1000, 1500 and 800, as in the first parallel test: the
  call resolves at tick 1500 with the three values in the order of the tasks; at tick 900
  the sessions of the first two tasks are still registered. With the tasks of the
  error-handling test the call is rejected at tick 300 with the error of the second task,
  and the registry at return holds the sessions of the first and the third task.
\<close>

theorem runParallel_ephemeral_sessions_witness:
  "returned (runParallel
       [delayed 1000 (Inr ''Task 1 result''), delayed 1500 (Inr ''Task 2 result''),
        delayed 800 (Inr ''Task 3 result'')] SessionManager_new)
     = (1500, Inr [''Task 1 result'', ''Task 2 result'', ''Task 3 result''])
   \<and> registry_on_return (runParallel
       [delayed 1000 (Inr ''Task 1 result''), delayed 1500 (Inr ''Task 2 result''),
        delayed 800 (Inr ''Task 3 result'')] SessionManager_new) = SessionManager_new
   \<and> registry_at_rest (runParallel
       [delayed 1000 (Inr ''Task 1 result''), delayed 1500 (Inr ''Task 2 result''),
        delayed 800 (Inr ''Task 3 result'')] SessionManager_new) = SessionManager_new
   \<and> sessions (registry_at 900 (runParallel
       [delayed 1000 (Inr ''Task 1 result''), delayed 1500 (Inr ''Task 2 result''),
        delayed 800 (Inr ''Task 3 result'')] SessionManager_new))
      = [(''parallel-0'', ChromeSession_new ''parallel-0''), (''parallel-1'', ChromeSession_new ''parallel-1'')]
   \<and> \<not> Map_has (ephemeral_name 0) (sessions SessionManager_new)
   \<and> \<not> Map_has (ephemeral_name 1) (sessions SessionManager_new)
   \<and> \<not> Map_has (ephemeral_name 2) (sessions SessionManager_new)
   \<and> snd (returned (runParallel
       [delayed 500 (Inr ''Task 1 success''), delayed 300 (Inl (Error ''Task 2 error'')),
        delayed 400 (Inr ''Task 3 success'')] SessionManager_new)) = Inl (Error ''Task 2 error'')
   \<and> sessions (registry_on_return (runParallel
       [delayed 500 (Inr ''Task 1 success''), delayed 300 (Inl (Error ''Task 2 error'')),
        delayed 400 (Inr ''Task 3 success'')] SessionManager_new))
      = [(''parallel-0'', ChromeSession_new ''parallel-0''), (''parallel-2'', ChromeSession_new ''parallel-2'')]"
  using
    runParallel_ephemeral_sessions
      [where t = 900 and m = SessionManager_new
         and tasks = "[delayed 1000 (Inr ''Task 1 result''), delayed 1500 (Inr ''Task 2 result''),
                       delayed 800 (Inr ''Task 3 result'')]"
         and vs = "[''Task 1 result'', ''Task 2 result'', ''Task 3 result'']"
         and e = "Error ''Task 2 error''"]
    runParallel_ephemeral_sessions
      [where t = 0 and m = SessionManager_new
         and tasks = "[delayed 500 (Inr ''Task 1 success''), delayed 300 (Inl (Error ''Task 2 error'')),
                       delayed 400 (Inr ''Task 3 success'')]"
         and vs = "[]" and e = "Error ''Task 2 error''"]
  unfolding run3_returned
  by (simp add: Promise_all_def rejections_def resolutions_def earliest_def in_flight_def
      SessionManager_new_def Map_has_def delayed_def ephemeral_names)

text \<open>
  Claim C3 fails at the moment a failing call returns: \<open>Promise.all\<close> rejects as soon as one
  task has thrown. With the tasks of the error-handling test (the second throws at tick 300,
  the others resolve at ticks 500 and 400), the call is rejected at tick 300 and the
  registry then counts the two sessions of the tasks still running, not the 0 sessions it
  had before the call.
\<close>

theorem sibling_sessions_at_rejection:
  "returned (runParallel
       [delayed 500 (Inr ''Task 1 success''), delayed 300 (Inl (Error ''Task 2 error'')),
        delayed 400 (Inr ''Task 3 success'')] SessionManager_new)
     = (300, Inl (Error ''Task 2 error''))
   \<and> getSessionCount (registry_on_return (runParallel
       [delayed 500 (Inr ''Task 1 success''), delayed 300 (Inl (Error ''Task 2 error'')),
        delayed 400 (Inr ''Task 3 success'')] SessionManager_new)) = 2
   \<and> getSessionCount SessionManager_new = 0"
  unfolding run3_returned
  by (simp add: Promise_all_def rejections_def earliest_def
      registry_on_return_def registry_at_def removed_by_def removeSession_def Map_delete_def
      getSessionCount_def SessionManager_new_def)

text \<open>
  Claim C5: when the list of names and the list of tasks differ in length,
  \<open>runParallelWithSessions\<close> is rejected with the error that names both lengths, and the
  registry is unchanged.
\<close>

theorem runParallelWithSessions_arity:
  "length sessionNames \<noteq> length tasks \<Longrightarrow>
     runParallelWithSessions sessionNames tasks m
       = ((0, Inl (Error (''Number of sessions ('' @ show_nat (length sessionNames)
                           @ '') must match number of tasks ('' @ show_nat (length tasks) @ '')''))),
          m)"
  by (simp add: runParallelWithSessions_def)

theorem runParallelWithSessions_arity_witness:
  "runParallelWithSessions [''A'', ''B''] [readTabId, readTabId, readTabId] SessionManager_new
     = ((0, Inl (Error ''Number of sessions (2) must match number of tasks (3)'')), SessionManager_new)"
  using runParallelWithSessions_arity [of "[''A'', ''B'']" "[readTabId, readTabId, readTabId]" SessionManager_new]
  by (simp add: show_nat.simps)

lemma registry_AB_sessions:
  "registry_AB = \<lparr> sessions = [(''A'', \<lparr>sessionId = ''A'', tabId = Some 111\<rparr>),
                                (''B'', \<lparr>sessionId = ''B'', tabId = Some 222\<rparr>)],
                   sessionCounter = 0 \<rparr>"
  by (simp add: registry_AB_def createSession_def SessionManager_new_def Map_has_def
      ChromeSession_new_def update_session_def setTabId_def Let_def)

text \<open>
  When every name is registered, \<open>runParallelWithSessions\<close> creates nothing: each task is
  given the session registered under its name and the registry stays as it was.
\<close>

lemma start_named_present:
  "\<forall>n \<in> set (map fst nts). getSession n m \<noteq> None \<Longrightarrow>
     start_named nts m = (map (\<lambda>nt. (snd nt) (the (getSession (fst nt) m))) nts, m)"
proof (induction nts arbitrary: m)
  case Nil
  then show ?case by simp
next
  case (Cons a nts)
  obtain n t where a: "a = (n, t)" by (cases a)
  from Cons.prems a obtain s where s: "getSession n m = Some s" by auto
  from Cons.prems have "\<forall>n \<in> set (map fst nts). getSession n m \<noteq> None" by simp
  from Cons.IH [OF this] show ?case by (simp add: a with_named_def s)
qed

lemma runParallelWithSessions_registered:
  "length sessionNames = length tasks \<Longrightarrow>
   \<forall>n \<in> set sessionNames. getSession n m \<noteq> None \<Longrightarrow>
     snd (runParallelWithSessions sessionNames tasks m) = m"
  by (simp add: runParallelWithSessions_def start_named_present)

text \<open>
  Claim C9: on the registry with session \<open>A\<close> on tab 111 and session \<open>B\<close> on tab 222,
  \<open>runParallelWithSessions(["A", "B"], [readTabId, readTabId])\<close> resolves to 111 and 222 in
  that order and leaves the registry as it was: both sessions are still there under their
  names, with their tabs.
\<close>

theorem scenario_read_tabs:
  "runParallelWithSessions [''A'', ''B''] [readTabId, readTabId] registry_AB
     = ((0, Inr [Some 111, Some 222]), registry_AB)
   \<and> getSession ''A'' registry_AB = Some \<lparr>sessionId = ''A'', tabId = Some 111\<rparr>
   \<and> getSession ''B'' registry_AB = Some \<lparr>sessionId = ''B'', tabId = Some 222\<rparr>"
  by (simp add: registry_AB_sessions runParallelWithSessions_def with_named_def getSession_def
      Map_get_def readTabId_def getTabId_def Promise_all_def rejections_def resolutions_def)

end
